theory Spec2Isabelle
  imports Complex_Main
begin

section \<open>The phantom geometry of visionrt-cube-dicom.py\<close>

text \<open>
  The script classifies points of space against a cube with bevelled edges and against a
  handful of small spheres. Coordinates are real numbers, the way the specification's
  data model describes a point.

  The cube test is modelled in exact real arithmetic. The two sphere tests compare a
  computed distance with a radius, and what they return for a point near the surface of a
  sphere depends on how the machine rounds; their arithmetic is modelled as the binary64
  floating point arithmetic that numpy uses.

  The script's geometry constants are module-level globals. Here they travel in a record
  that every function receives, so that the functions can also be studied for other
  values than the ones the script assigns.
\<close>

subsection \<open>Errors and module-level parameters\<close>

datatype py_error = AssertionError

record geometry =
  cube_half_width :: real
  cube_inside_bevel :: real
  bevel_radius :: real
  sphere_diameter :: real
  sphere_centers :: "real list list"

text \<open>
  Lines 5 to 13 of the script: the assignments of the geometry globals, with the four
  literals as parameters. \<open>bevel_radius\<close> is computed from the two cube widths. No
  statement of the module checks the values and none raises, so the only result is
  \<open>Inr\<close>.
\<close>

definition geometry_parameters ::
  "real \<Rightarrow> real \<Rightarrow> real \<Rightarrow> real list list \<Rightarrow> py_error + geometry" where
  "geometry_parameters w b d cs =
     Inr \<lparr>cube_half_width = w, cube_inside_bevel = b, bevel_radius = w - b,
          sphere_diameter = d, sphere_centers = cs\<rparr>"

text \<open>The values the script assigns.\<close>

definition config :: geometry where
  "config =
     \<lparr>cube_half_width = 75, cube_inside_bevel = 67, bevel_radius = 75 - 67,
      sphere_diameter = 15 / 2,
      sphere_centers =
        [[-10, -25, -30], [10, -15, -15], [0, 0, 0], [-20, 20, 10], [20, 30, 20]]\<rparr>"

subsection \<open>The numpy and builtin operations the script calls\<close>

text \<open>
  A one-dimensional array is a list, a two-dimensional array a list of rows, a
  three-dimensional one a list of those.
\<close>

definition np_abs :: "real list \<Rightarrow> real list" where
  "np_abs xs = map abs xs"

text \<open>\<open>arr > c\<close> and \<open>arr <= c\<close> with a scalar: elementwise, giving a boolean array.\<close>

definition np_gt :: "real list \<Rightarrow> real \<Rightarrow> bool list" where
  "np_gt xs c = map (\<lambda>v. c < v) xs"

definition np_le :: "real list \<Rightarrow> real \<Rightarrow> bool list" where
  "np_le xs c = map (\<lambda>v. v \<le> c) xs"

text \<open>Python's builtins \<open>any\<close>, \<open>all\<close> and \<open>sum\<close> over a boolean array.\<close>

primrec py_any :: "bool list \<Rightarrow> bool" where
  "py_any [] = False"
| "py_any (b # bs) = (b \<or> py_any bs)"

primrec py_all :: "bool list \<Rightarrow> bool" where
  "py_all [] = True"
| "py_all (b # bs) = (b \<and> py_all bs)"

primrec py_sum :: "bool list \<Rightarrow> nat" where
  "py_sum [] = 0"
| "py_sum (b # bs) = (if b then 1 else 0) + py_sum bs"

text \<open>
  \<open>c * np.ones((3, 1))\<close>: an array of shape (3, 1), three rows of one entry each, not a
  vector of shape (3,).
\<close>

definition np_ones_3_1 :: "real list list" where
  "np_ones_3_1 = [[1], [1], [1]]"

definition np_scale :: "real \<Rightarrow> real list list \<Rightarrow> real list list" where
  "np_scale c rows = map (map (\<lambda>v. c * v)) rows"

text \<open>
  \<open>arr[mask]\<close> with a one-dimensional boolean mask selects along the first axis: the
  entries of a vector, the rows of a two-dimensional array.
\<close>

definition np_mask :: "bool list \<Rightarrow> 'a list \<Rightarrow> 'a list" where
  "np_mask tf xs = map snd (filter fst (zip tf xs))"

text \<open>
  \<open>a - b\<close> for \<open>a\<close> of shape (n,) and \<open>b\<close> of shape (m, 1). numpy broadcasts both to
  shape (m, n): entry (i, j) of the result is \<open>a[j] - b[i, 0]\<close>. The single entries of
  the rows of \<open>b\<close> are \<open>concat b\<close>.
\<close>

definition np_sub_broadcast :: "real list \<Rightarrow> real list list \<Rightarrow> real list list" where
  "np_sub_broadcast a b = map (\<lambda>c. map (\<lambda>v. v - c) a) (concat b)"

text \<open>
  \<open>np.linalg.norm(x)\<close> with neither \<open>ord\<close> nor \<open>axis\<close>: the array is flattened,
  whatever its number of dimensions, and the result is the square root of the sum of
  the squares of all its entries. This is the exact value, which the cube test uses.
\<close>

definition np_linalg_norm :: "real list \<Rightarrow> real" where
  "np_linalg_norm x = sqrt (sum_list (map (\<lambda>v. v * v) x))"

definition np_linalg_norm_2d :: "real list list \<Rightarrow> real" where
  "np_linalg_norm_2d x = np_linalg_norm (concat x)"

subsection \<open>is_in_cube\<close>

text \<open>
  The result is \<open>Inl AssertionError\<close> when the assertion on the length fails,
  \<open>Inr (Some b)\<close> when a \<open>return\<close> statement gives the boolean \<open>b\<close>, and
  \<open>Inr None\<close> when control reaches the end of the body, where Python returns
  \<open>None\<close>.
\<close>

definition is_in_cube :: "geometry \<Rightarrow> real list \<Rightarrow> bool \<Rightarrow> py_error + bool option" where
  "is_in_cube g loc0 rounded_edges =
     (if length loc0 = 3 then
        let loc = np_abs loc0 in
        if py_any (np_gt loc (cube_half_width g)) then Inr (Some False)
        else if \<not> rounded_edges then Inr (Some True)
        else if py_all (np_le loc (cube_inside_bevel g)) then Inr (Some True)
        else if py_sum (np_gt loc (cube_inside_bevel g)) = 1 then Inr (Some True)
        else if py_sum (np_gt loc (cube_inside_bevel g)) = 2 then
          let tf_array = np_gt loc (cube_inside_bevel g);
              origin = np_scale (cube_inside_bevel g) np_ones_3_1;
              vec = np_sub_broadcast (np_mask tf_array loc) (np_mask tf_array origin);
              dist = np_linalg_norm_2d vec
          in if dist \<le> bevel_radius g then Inr (Some True) else Inr (Some False)
        else if py_sum (np_gt loc (cube_inside_bevel g)) = 3 then
          let origin = np_scale (cube_inside_bevel g) np_ones_3_1;
              vec = np_sub_broadcast loc origin;
              dist = np_linalg_norm_2d vec
          in if dist \<le> bevel_radius g then Inr (Some True) else Inr (Some False)
        else Inr None
      else Inl AssertionError)"

subsection \<open>Binary64 arithmetic\<close>

text \<open>
  An arithmetic operation on float64 values returns the exact real result rounded to the
  nearest number with a significand of 53 bits, a tie going to the even significand.
  \<open>round_even\<close> rounds to the nearest integer in that way. \<open>f64_exponent x\<close> is the
  binary exponent of \<open>x\<close>, not below \<open>- 1022\<close>, so that numbers of magnitude below
  \<open>2 powr - 1022\<close> are rounded on the subnormal grid of spacing \<open>2 powr - 1074\<close>.
  Overflow is not represented: a result beyond the largest float64 stays a large real
  number, which compares with a radius the way infinity does.
\<close>

definition round_even :: "real \<Rightarrow> int" where
  "round_even r =
     (let n = \<lfloor>r\<rfloor>; f = r - of_int n
      in if f < 1 / 2 then n else if 1 / 2 < f then n + 1 else if even n then n else n + 1)"

definition f64_exponent :: "real \<Rightarrow> int" where
  "f64_exponent x = max \<lfloor>log 2 \<bar>x\<bar>\<rfloor> (- 1022)"

definition f64_round :: "real \<Rightarrow> real" where
  "f64_round x =
     (if x = 0 then 0
      else of_int (round_even (x / 2 powr of_int (f64_exponent x - 52)))
             * 2 powr of_int (f64_exponent x - 52))"

text \<open>\<open>a - b\<close> for two float64 arrays of the same shape (n,).\<close>

definition f64_sub :: "real list \<Rightarrow> real list \<Rightarrow> real list" where
  "f64_sub a b = map2 (\<lambda>u v. f64_round (u - v)) a b"

text \<open>
  \<open>np.linalg.norm(x)\<close> of a float64 vector is \<open>sqrt(x.dot(x))\<close>, the square root
  rounded. The order of the additions inside \<open>dot\<close>, and whether each product is rounded
  before it is added, belong to the BLAS library numpy is linked with and not to the
  script: the dot product is a parameter. Two instances accumulate from left to right,
  \<open>dot_fused\<close> with a fused multiply-add (one rounding for each term) and
  \<open>dot_unfused\<close> with every product rounded before the addition.
\<close>

definition np_linalg_norm_f64 :: "(real list \<Rightarrow> real list \<Rightarrow> real) \<Rightarrow> real list \<Rightarrow> real" where
  "np_linalg_norm_f64 dot x = f64_round (sqrt (dot x x))"

definition dot_fused :: "real list \<Rightarrow> real list \<Rightarrow> real" where
  "dot_fused a b = fold (\<lambda>(u, v) acc. f64_round (acc + u * v)) (zip a b) 0"


subsection \<open>is_in_sphere\<close>

text \<open>
  The loop over the rows of \<open>sphere_centers\<close>, returning at the first hit. The first
  argument is the dot product that \<open>np.linalg.norm\<close> uses.
\<close>

primrec is_in_sphere_loop ::
  "(real list \<Rightarrow> real list \<Rightarrow> real) \<Rightarrow> real \<Rightarrow> real list \<Rightarrow> real list list \<Rightarrow> bool" where
  "is_in_sphere_loop dot d loc [] = False"
| "is_in_sphere_loop dot d loc (origin # rest) =
     (let vec = f64_sub loc origin;
          dist = np_linalg_norm_f64 dot vec
      in if dist \<le> f64_round (d / 2) then True else is_in_sphere_loop dot d loc rest)"

definition is_in_sphere ::
  "(real list \<Rightarrow> real list \<Rightarrow> real) \<Rightarrow> geometry \<Rightarrow> real list \<Rightarrow> py_error + bool" where
  "is_in_sphere dot g loc =
     (if length loc = 3
      then Inr (is_in_sphere_loop dot (sphere_diameter g) loc (sphere_centers g))
      else Inl AssertionError)"

subsection \<open>is_in_sphere_np\<close>

text \<open>
  \<open>np.meshgrid(x, y, z, indexing="ij")\<close>: three arrays of shape
  (len x, len y, len z) whose entry (i, j, k) is \<open>x[i]\<close>, \<open>y[j]\<close> and \<open>z[k]\<close>.
\<close>

definition meshgrid_ij ::
  "real list \<Rightarrow> real list \<Rightarrow> real list \<Rightarrow>
   real list list list \<times> real list list list \<times> real list list list" where
  "meshgrid_ij x y z =
     (map (\<lambda>u. map (\<lambda>v. map (\<lambda>w. u) z) y) x,
      map (\<lambda>u. map (\<lambda>v. map (\<lambda>w. v) z) y) x,
      map (\<lambda>u. map (\<lambda>v. map (\<lambda>w. w) z) y) x)"

text \<open>Elementwise operations on three-dimensional arrays of one shape.\<close>

definition map_3d :: "('a \<Rightarrow> 'b) \<Rightarrow> 'a list list list \<Rightarrow> 'b list list list" where
  "map_3d f a = map (map (map f)) a"

definition map2_3d ::
  "('a \<Rightarrow> 'b \<Rightarrow> 'c) \<Rightarrow> 'a list list list \<Rightarrow> 'b list list list \<Rightarrow> 'c list list list" where
  "map2_3d f a b = map2 (map2 (map2 f)) a b"

text \<open>
  One pass of the loop body for the sphere centred at \<open>origin\<close>. Every subtraction,
  square and addition is an elementwise float64 operation, rounded on its own.
\<close>

definition sphere_step ::
  "real \<Rightarrow> real list list list \<Rightarrow> real list list list \<Rightarrow> real list list list \<Rightarrow>
   real list \<Rightarrow> bool list list list \<Rightarrow> bool list list list" where
  "sphere_step d XX YY ZZ origin is_in_sphere_array =
     (let DXX = map_3d (\<lambda>v. f64_round (v - origin ! 0)) XX;
          DYY = map_3d (\<lambda>v. f64_round (v - origin ! 1)) YY;
          DZZ = map_3d (\<lambda>v. f64_round (v - origin ! 2)) ZZ;
          quad_sum =
            map2_3d (\<lambda>s t. f64_round (s + t))
              (map2_3d (\<lambda>s t. f64_round (s + t))
                 (map_3d (\<lambda>v. f64_round (v * v)) DXX) (map_3d (\<lambda>v. f64_round (v * v)) DYY))
              (map_3d (\<lambda>v. f64_round (v * v)) DZZ);
          is_in_this_sphere =
            map_3d (\<lambda>q. q \<le> f64_round (f64_round (d / 2) * f64_round (d / 2))) quad_sum
      in map2_3d (\<lambda>s t. s \<or> t) is_in_this_sphere is_in_sphere_array)"

primrec is_in_sphere_np_loop ::
  "real \<Rightarrow> real list list list \<Rightarrow> real list list list \<Rightarrow> real list list list \<Rightarrow>
   real list list \<Rightarrow> bool list list list \<Rightarrow> bool list list list" where
  "is_in_sphere_np_loop d XX YY ZZ [] acc = acc"
| "is_in_sphere_np_loop d XX YY ZZ (origin # rest) acc =
     is_in_sphere_np_loop d XX YY ZZ rest (sphere_step d XX YY ZZ origin acc)"

definition is_in_sphere_np ::
  "geometry \<Rightarrow> real list \<Rightarrow> real list \<Rightarrow> real list \<Rightarrow> bool list list list" where
  "is_in_sphere_np g x y z =
     (case meshgrid_ij x y z of
        (XX, YY, ZZ) \<Rightarrow>
          is_in_sphere_np_loop (sphere_diameter g) XX YY ZZ (sphere_centers g)
            (map_3d (\<lambda>_. False) XX))"

text \<open>
  The entry of \<open>quad_sum\<close> at a grid point \<open>(u, v, w)\<close> for the sphere centred at \<open>c\<close>,
  written out for one point.
\<close>

definition quad_sum_at :: "real list \<Rightarrow> real \<Rightarrow> real \<Rightarrow> real \<Rightarrow> real" where
  "quad_sum_at c u v w =
     f64_round
       (f64_round (f64_round (f64_round (u - c ! 0) * f64_round (u - c ! 0))
          + f64_round (f64_round (v - c ! 1) * f64_round (v - c ! 1)))
        + f64_round (f64_round (w - c ! 2) * f64_round (w - c ! 2)))"

subsection \<open>The distance of the specification\<close>

text \<open>
  The Euclidean distance between two points given by their coordinate lists, as the
  specification words it; the code's own distances are \<open>np_linalg_norm\<close> and
  \<open>np_linalg_norm_f64\<close> above.
\<close>

definition euclidean_distance :: "real list \<Rightarrow> real list \<Rightarrow> real" where
  "euclidean_distance p c = sqrt (sum_list (map2 (\<lambda>u v. (u - v)\<^sup>2) p c))"

section \<open>Auxiliary facts\<close>

lemma sqrt_le_iff_square: "0 \<le> r \<Longrightarrow> (sqrt q \<le> r) = (q \<le> r * r)"
proof -
  assume r: "0 \<le> r"
  have "sqrt (r * r) = r" using r by simp
  then have "(sqrt q \<le> r) = (sqrt q \<le> sqrt (r * r))" by simp
  also have "\<dots> = (q \<le> r * r)" by (rule real_sqrt_le_iff)
  finally show ?thesis .
qed

lemma sqrt_times_le_iff_square:
  assumes "0 \<le> r" "0 < k"
  shows "(sqrt q * k \<le> r) = (q * (k * k) \<le> r * r)"
proof -
  have "sqrt (q * (k * k)) = sqrt q * k"
    using assms(2) by (simp add: real_sqrt_mult)
  then show ?thesis
    using sqrt_le_iff_square [OF assms(1), of "q * (k * k)"] by simp
qed

lemmas cube_defs = is_in_cube_def np_abs_def np_gt_def np_le_def np_scale_def np_ones_3_1_def
  np_mask_def np_sub_broadcast_def np_linalg_norm_2d_def np_linalg_norm_def Let_def

subsection \<open>What is_in_cube computes, region by region\<close>

lemma is_in_cube_sharp:
  "is_in_cube g [x, y, z] False =
     Inr (Some (\<bar>x\<bar> \<le> cube_half_width g \<and> \<bar>y\<bar> \<le> cube_half_width g \<and> \<bar>z\<bar> \<le> cube_half_width g))"
  by (simp add: cube_defs not_less)

lemma np_abs_idem: "np_abs (np_abs loc) = np_abs loc"
  by (simp add: np_abs_def)

lemma is_in_cube_abs: "is_in_cube g (np_abs loc) r = is_in_cube g loc r"
proof -
  have "length (np_abs loc) = length loc" by (simp add: np_abs_def)
  then show ?thesis
    unfolding is_in_cube_def np_abs_idem by simp
qed

text \<open>
  In the edge and corner regions the array \<open>vec\<close> is a square matrix, every row of it
  the vector from the bevel origin to the point, so its norm is the distance multiplied
  by the square root of the number of rows.
\<close>

lemma is_in_cube_corner:
  assumes "\<bar>x\<bar> \<le> cube_half_width g" "\<bar>y\<bar> \<le> cube_half_width g" "\<bar>z\<bar> \<le> cube_half_width g"
    and "cube_inside_bevel g < \<bar>x\<bar>" "cube_inside_bevel g < \<bar>y\<bar>" "cube_inside_bevel g < \<bar>z\<bar>"
  shows "is_in_cube g [x, y, z] True =
     Inr (Some (sqrt 3 * euclidean_distance [\<bar>x\<bar>, \<bar>y\<bar>, \<bar>z\<bar>]
                  [cube_inside_bevel g, cube_inside_bevel g, cube_inside_bevel g]
                \<le> bevel_radius g))"
proof -
  let ?b = "cube_inside_bevel g"
  let ?q = "(\<bar>x\<bar> - ?b) * (\<bar>x\<bar> - ?b) + (\<bar>y\<bar> - ?b) * (\<bar>y\<bar> - ?b) + (\<bar>z\<bar> - ?b) * (\<bar>z\<bar> - ?b)"
  have "is_in_cube g [x, y, z] True = Inr (Some (sqrt (3 * ?q) \<le> bevel_radius g))"
    using assms by (simp add: cube_defs not_less not_le algebra_simps)
  moreover have "euclidean_distance [\<bar>x\<bar>, \<bar>y\<bar>, \<bar>z\<bar>] [?b, ?b, ?b] = sqrt ?q"
    by (simp add: euclidean_distance_def power2_eq_square add.assoc)
  ultimately show ?thesis
    by (simp only: real_sqrt_mult)
qed

lemma is_in_cube_edge_xy:
  assumes "\<bar>x\<bar> \<le> cube_half_width g" "\<bar>y\<bar> \<le> cube_half_width g" "\<bar>z\<bar> \<le> cube_half_width g"
    and "cube_inside_bevel g < \<bar>x\<bar>" "cube_inside_bevel g < \<bar>y\<bar>" "\<bar>z\<bar> \<le> cube_inside_bevel g"
  shows "is_in_cube g [x, y, z] True =
     Inr (Some (sqrt 2 * euclidean_distance [\<bar>x\<bar>, \<bar>y\<bar>] [cube_inside_bevel g, cube_inside_bevel g]
                \<le> bevel_radius g))"
proof -
  let ?b = "cube_inside_bevel g"
  let ?q = "(\<bar>x\<bar> - ?b) * (\<bar>x\<bar> - ?b) + (\<bar>y\<bar> - ?b) * (\<bar>y\<bar> - ?b)"
  have "is_in_cube g [x, y, z] True = Inr (Some (sqrt (2 * ?q) \<le> bevel_radius g))"
    using assms by (simp add: cube_defs not_less not_le algebra_simps)
  moreover have "euclidean_distance [\<bar>x\<bar>, \<bar>y\<bar>] [?b, ?b] = sqrt ?q"
    by (simp add: euclidean_distance_def power2_eq_square)
  ultimately show ?thesis
    by (simp only: real_sqrt_mult)
qed

lemma is_in_cube_edge_xz:
  assumes "\<bar>x\<bar> \<le> cube_half_width g" "\<bar>y\<bar> \<le> cube_half_width g" "\<bar>z\<bar> \<le> cube_half_width g"
    and "cube_inside_bevel g < \<bar>x\<bar>" "\<bar>y\<bar> \<le> cube_inside_bevel g" "cube_inside_bevel g < \<bar>z\<bar>"
  shows "is_in_cube g [x, y, z] True =
     Inr (Some (sqrt 2 * euclidean_distance [\<bar>x\<bar>, \<bar>z\<bar>] [cube_inside_bevel g, cube_inside_bevel g]
                \<le> bevel_radius g))"
proof -
  let ?b = "cube_inside_bevel g"
  let ?q = "(\<bar>x\<bar> - ?b) * (\<bar>x\<bar> - ?b) + (\<bar>z\<bar> - ?b) * (\<bar>z\<bar> - ?b)"
  have "is_in_cube g [x, y, z] True = Inr (Some (sqrt (2 * ?q) \<le> bevel_radius g))"
    using assms by (simp add: cube_defs not_less not_le algebra_simps)
  moreover have "euclidean_distance [\<bar>x\<bar>, \<bar>z\<bar>] [?b, ?b] = sqrt ?q"
    by (simp add: euclidean_distance_def power2_eq_square)
  ultimately show ?thesis
    by (simp only: real_sqrt_mult)
qed

lemma is_in_cube_edge_yz:
  assumes "\<bar>x\<bar> \<le> cube_half_width g" "\<bar>y\<bar> \<le> cube_half_width g" "\<bar>z\<bar> \<le> cube_half_width g"
    and "\<bar>x\<bar> \<le> cube_inside_bevel g" "cube_inside_bevel g < \<bar>y\<bar>" "cube_inside_bevel g < \<bar>z\<bar>"
  shows "is_in_cube g [x, y, z] True =
     Inr (Some (sqrt 2 * euclidean_distance [\<bar>y\<bar>, \<bar>z\<bar>] [cube_inside_bevel g, cube_inside_bevel g]
                \<le> bevel_radius g))"
proof -
  let ?b = "cube_inside_bevel g"
  let ?q = "(\<bar>y\<bar> - ?b) * (\<bar>y\<bar> - ?b) + (\<bar>z\<bar> - ?b) * (\<bar>z\<bar> - ?b)"
  have "is_in_cube g [x, y, z] True = Inr (Some (sqrt (2 * ?q) \<le> bevel_radius g))"
    using assms by (simp add: cube_defs not_less not_le algebra_simps)
  moreover have "euclidean_distance [\<bar>y\<bar>, \<bar>z\<bar>] [?b, ?b] = sqrt ?q"
    by (simp add: euclidean_distance_def power2_eq_square)
  ultimately show ?thesis
    by (simp only: real_sqrt_mult)
qed

lemma py_sum_le_3: "py_sum (np_gt (np_abs [x, y, z]) b) \<le> 3"
  by (simp add: np_gt_def np_abs_def)

lemma py_all_iff_sum_0:
  "py_all (np_le (np_abs [x, y, z]) b) = (py_sum (np_gt (np_abs [x, y, z]) b) = 0)"
  by (simp add: np_gt_def np_le_def np_abs_def not_less)

lemma is_in_cube_returns: "\<exists>v. is_in_cube g [x, y, z] r = Inr (Some v)"
proof -
  let ?n = "py_sum (np_gt (np_abs [x, y, z]) (cube_inside_bevel g))"
  have "?n \<le> 3" by (rule py_sum_le_3)
  then have "?n = 0 \<or> ?n = 1 \<or> ?n = 2 \<or> ?n = 3" by arith
  then show ?thesis
    by (auto simp add: is_in_cube_def Let_def py_all_iff_sum_0)
qed

subsection \<open>Rounding to binary64\<close>

lemma round_even_ge: "of_int m - 1 / 2 < r \<Longrightarrow> m \<le> round_even r"
  unfolding round_even_def Let_def by (auto; linarith)

lemma round_even_le: "r < of_int m + 1 / 2 \<Longrightarrow> round_even r \<le> m"
  unfolding round_even_def Let_def by (auto; linarith)

lemma f64_exponent_eq:
  assumes "2 powr of_int e \<le> \<bar>x\<bar>" "\<bar>x\<bar> < 2 powr of_int (e + 1)" "- 1022 \<le> e"
  shows "f64_exponent x = e"
proof -
  have "(0::real) < 2 powr of_int e" by simp
  with assms(1) have pos: "0 < \<bar>x\<bar>" by linarith
  have "of_int e \<le> log 2 \<bar>x\<bar>"
    using assms(1) pos by (simp add: le_log_iff)
  moreover have "log 2 \<bar>x\<bar> < of_int (e + 1)"
    using assms(2) pos by (simp add: log_less_iff)
  ultimately have "\<lfloor>log 2 \<bar>x\<bar>\<rfloor> = e"
    by (simp add: floor_unique)
  then show ?thesis using assms(3) by (simp add: f64_exponent_def)
qed

lemma f64_round_eq:
  assumes "2 ^ 52 \<le> \<bar>x\<bar> * 2 ^ k" "\<bar>x\<bar> * 2 ^ k < 2 ^ 53" "k \<le> 1074"
  shows "f64_round x = of_int (round_even (x * 2 ^ k)) / 2 ^ k"
proof -
  let ?e = "52 - int k"
  have p: "2 powr of_int (- int k) = 1 / (2::real) ^ k"
    by (simp add: powr_minus_divide powr_realpow)
  have e1: "2 powr of_int ?e = 2 ^ 52 / (2::real) ^ k"
    by (simp add: powr_diff powr_realpow)
  have e2: "2 powr of_int (?e + 1) = 2 ^ 53 / (2::real) ^ k"
    by (simp add: powr_diff powr_realpow)
  have "2 powr of_int ?e \<le> \<bar>x\<bar>"
    unfolding e1 using assms(1) by (simp add: field_simps)
  moreover have "\<bar>x\<bar> < 2 powr of_int (?e + 1)"
    unfolding e2 using assms(2) by (simp add: field_simps)
  moreover have "- 1022 \<le> ?e" using assms(3) by simp
  ultimately have ex: "f64_exponent x = ?e" by (rule f64_exponent_eq)
  have "x \<noteq> 0" using assms(1) by auto
  then show ?thesis
    unfolding f64_round_def ex using p by simp
qed



lemma f64_round_ge_pow2:
  assumes "2 ^ n \<le> \<bar>t\<bar>"
  shows "2 ^ n \<le> \<bar>f64_round t\<bar>"
proof -
  define e where "e = \<lfloor>log 2 \<bar>t\<bar>\<rfloor>"
  define u :: real where "u = 2 powr of_int (e - 52)"
  have "(0::real) < 2 ^ n" by simp
  with assms have pos: "0 < \<bar>t\<bar>" by linarith
  then have t0: "t \<noteq> 0" by simp
  have "(2::real) powr of_int (int n) \<le> \<bar>t\<bar>"
    using assms by (simp add: powr_realpow)
  then have "of_int (int n) \<le> log 2 \<bar>t\<bar>"
    using pos by (simp add: le_log_iff)
  then have ne: "int n \<le> e"
    unfolding e_def by (simp add: le_floor_iff)
  have "of_int e \<le> log 2 \<bar>t\<bar>"
    unfolding e_def by simp
  then have lo: "2 powr of_int e \<le> \<bar>t\<bar>"
    using pos by (simp add: le_log_iff)
  have ex: "f64_exponent t = e"
    unfolding f64_exponent_def e_def [symmetric] using ne by simp
  have u0: "0 < u" by (simp add: u_def)
  have eu: "2 powr of_int e = 2 ^ 52 * u"
    unfolding u_def by (simp add: powr_diff powr_realpow)
  have fl: "f64_round t = of_int (round_even (t / u)) * u"
    unfolding f64_round_def ex u_def using t0 by simp
  have big: "(2::real) ^ n \<le> 2 ^ 52 * u"
  proof -
    have "(2::real) powr of_int (int n) \<le> 2 powr of_int e"
      using ne by simp
    then show ?thesis
      unfolding eu by (simp add: powr_realpow)
  qed
  have "2 ^ 52 * u \<le> \<bar>f64_round t\<bar>"
  proof (cases "0 < t")
    case True
    then have "2 ^ 52 * u \<le> t" using lo eu by simp
    then have "of_int (2 ^ 52) \<le> t / u"
      using u0 by (simp add: field_simps)
    then have "of_int (2 ^ 52) - 1 / 2 < t / u" by linarith
    then have "2 ^ 52 \<le> round_even (t / u)" by (rule round_even_ge)
    then have "(2::real) ^ 52 \<le> of_int (round_even (t / u))"
      by (metis of_int_le_iff of_int_numeral of_int_power)
    then have "2 ^ 52 * u \<le> of_int (round_even (t / u)) * u"
      using u0 by simp
    then show ?thesis unfolding fl by linarith
  next
    case False
    then have "2 ^ 52 * u \<le> - t" using lo eu t0 by simp
    then have "t / u \<le> of_int (- (2 ^ 52))"
      using u0 by (simp add: field_simps)
    then have "t / u < of_int (- (2 ^ 52)) + 1 / 2" by linarith
    then have "round_even (t / u) \<le> - (2 ^ 52)" by (rule round_even_le)
    then have "of_int (round_even (t / u)) \<le> - ((2::real) ^ 52)"
      by (metis of_int_le_iff of_int_minus of_int_numeral of_int_power)
    then have "of_int (round_even (t / u)) * u \<le> (- (2 ^ 52)) * u"
      using u0 by (intro mult_right_mono) simp_all
    then show ?thesis unfolding fl by linarith
  qed
  with big show ?thesis by linarith
qed


lemma f64_round_nonneg: "0 \<le> t \<Longrightarrow> 0 \<le> f64_round t"
proof (cases "t = 0")
  case True
  then show ?thesis by (simp add: f64_round_def)
next
  case False
  assume "0 \<le> t"
  let ?u = "2 powr of_int (f64_exponent t - 52)"
  have "0 \<le> t / ?u"
    using \<open>0 \<le> t\<close> by simp
  then have "of_int 0 - 1 / 2 < t / ?u" by simp
  then have "0 \<le> round_even (t / ?u)" by (rule round_even_ge)
  then show ?thesis
    using False by (simp add: f64_round_def)
qed

lemma f64_round_ge_pow2_pos: "2 ^ n \<le> t \<Longrightarrow> 2 ^ n \<le> f64_round t"
proof -
  assume a: "2 ^ n \<le> t"
  moreover have "(0::real) < 2 ^ n" by simp
  ultimately have "0 \<le> t" by linarith
  then have "0 \<le> f64_round t" by (rule f64_round_nonneg)
  moreover have "2 ^ n \<le> \<bar>f64_round t\<bar>"
    using a by (intro f64_round_ge_pow2) linarith
  ultimately show ?thesis by linarith
qed

subsection \<open>Centres far from the point\<close>

lemma f64_sub_far:
  assumes "4 \<le> \<bar>x - a\<bar>"
  shows "\<exists>p q r. f64_sub [x, y, z] [a, b, e] = [p, q, r] \<and> 16 \<le> p * p"
proof -
  have "2 ^ 2 \<le> \<bar>f64_round (x - a)\<bar>"
    using assms by (intro f64_round_ge_pow2) simp
  then have "4 \<le> \<bar>f64_round (x - a)\<bar>" by simp
  then have "4 * 4 \<le> \<bar>f64_round (x - a)\<bar> * \<bar>f64_round (x - a)\<bar>"
    by (intro mult_mono) simp_all
  then have "16 \<le> f64_round (x - a) * f64_round (x - a)" by simp
  then show ?thesis by (simp add: f64_sub_def)
qed

lemma f64_round_ge_16: "16 \<le> t \<Longrightarrow> 16 \<le> f64_round t"
  using f64_round_ge_pow2_pos [of 4 t] by simp

lemma norm_far:
  assumes "16 \<le> s"
  shows "\<not> f64_round (sqrt s) \<le> 15 / 4"
proof -
  have "4\<^sup>2 \<le> s" using assms by simp
  then have "4 \<le> sqrt s" by (rule real_le_rsqrt)
  then have "2 ^ 2 \<le> f64_round (sqrt s)"
    by (intro f64_round_ge_pow2_pos) simp
  then show ?thesis by simp
qed


lemma dot_fused_3:
  "dot_fused [p, q, r] [p, q, r] = f64_round (f64_round (f64_round (p * p) + q * q) + r * r)"
  by (simp add: dot_fused_def)

lemma dot_fused_far: "16 \<le> p * p \<Longrightarrow> 16 \<le> dot_fused [p, q, r] [p, q, r]"
proof -
  assume a: "16 \<le> p * p"
  have q: "0 \<le> q * q" and r: "0 \<le> r * r" by simp_all
  have 1: "16 \<le> f64_round (p * p)" using a by (rule f64_round_ge_16)
  have "16 \<le> f64_round (p * p) + q * q" using 1 q by linarith
  then have 2: "16 \<le> f64_round (f64_round (p * p) + q * q)" by (rule f64_round_ge_16)
  have "16 \<le> f64_round (f64_round (p * p) + q * q) + r * r"
    using 2 r by linarith
  then have "16 \<le> f64_round (f64_round (f64_round (p * p) + q * q) + r * r)"
    by (rule f64_round_ge_16)
  then show ?thesis by (simp only: dot_fused_3)
qed

lemma norm_fused_far:
  "4 \<le> \<bar>x - a\<bar> \<Longrightarrow> \<not> np_linalg_norm_f64 dot_fused (f64_sub [x, y, z] [a, b, e]) \<le> 15 / 4"
proof -
  assume "4 \<le> \<bar>x - a\<bar>"
  then obtain p q r where v: "f64_sub [x, y, z] [a, b, e] = [p, q, r]" and p: "16 \<le> p * p"
    using f64_sub_far by blast
  have "16 \<le> dot_fused [p, q, r] [p, q, r]" using p by (rule dot_fused_far)
  then have "\<not> f64_round (sqrt (dot_fused [p, q, r] [p, q, r])) \<le> 15 / 4" by (rule norm_far)
  then show ?thesis unfolding np_linalg_norm_f64_def v .
qed

subsection \<open>The two sphere tests, point by point\<close>

lemma is_in_sphere_loop_iff:
  "is_in_sphere_loop dot d loc cs =
     (\<exists>c\<in>set cs. np_linalg_norm_f64 dot (f64_sub loc c) \<le> f64_round (d / 2))"
  by (induction cs) (simp_all add: Let_def)

text \<open>
  Every array of the vectorised path has the shape of the grid and is the table of a
  function of the three coordinates; the elementwise operations act on that function.
\<close>

lemma map_3d_tab:
  "map_3d f (map (\<lambda>u. map (\<lambda>v. map (\<lambda>w. A u v w) zs) ys) xs) =
   map (\<lambda>u. map (\<lambda>v. map (\<lambda>w. f (A u v w)) zs) ys) xs"
  by (simp add: map_3d_def comp_def)

lemma map2_tab:
  "map2 f (map A zs) (map B zs) = map (\<lambda>w. f (A w) (B w)) zs"
  by (induction zs) simp_all

lemma map2_3d_tab:
  "map2_3d f (map (\<lambda>u. map (\<lambda>v. map (\<lambda>w. A u v w) zs) ys) xs)
             (map (\<lambda>u. map (\<lambda>v. map (\<lambda>w. B u v w) zs) ys) xs) =
   map (\<lambda>u. map (\<lambda>v. map (\<lambda>w. f (A u v w) (B u v w)) zs) ys) xs"
  unfolding map2_3d_def by (simp only: map2_tab)

lemma sphere_step_tab:
  "sphere_step d (map (\<lambda>u. map (\<lambda>v. map (\<lambda>w. u) zs) ys) xs)
       (map (\<lambda>u. map (\<lambda>v. map (\<lambda>w. v) zs) ys) xs)
       (map (\<lambda>u. map (\<lambda>v. map (\<lambda>w. w) zs) ys) xs) c
       (map (\<lambda>u. map (\<lambda>v. map (\<lambda>w. A u v w) zs) ys) xs) =
   map (\<lambda>u. map (\<lambda>v. map (\<lambda>w.
      quad_sum_at c u v w \<le> f64_round (f64_round (d / 2) * f64_round (d / 2))
      \<or> A u v w) zs) ys) xs"
  unfolding sphere_step_def Let_def quad_sum_at_def by (simp only: map_3d_tab map2_3d_tab)

lemma is_in_sphere_np_loop_tab:
  "is_in_sphere_np_loop d (map (\<lambda>u. map (\<lambda>v. map (\<lambda>w. u) zs) ys) xs)
       (map (\<lambda>u. map (\<lambda>v. map (\<lambda>w. v) zs) ys) xs)
       (map (\<lambda>u. map (\<lambda>v. map (\<lambda>w. w) zs) ys) xs) cs
       (map (\<lambda>u. map (\<lambda>v. map (\<lambda>w. A u v w) zs) ys) xs) =
   map (\<lambda>u. map (\<lambda>v. map (\<lambda>w. A u v w \<or>
      (\<exists>c\<in>set cs.
         quad_sum_at c u v w \<le> f64_round (f64_round (d / 2) * f64_round (d / 2)))) zs) ys) xs"
proof (induction cs arbitrary: A)
  case Nil
  show ?case by simp
next
  case (Cons c cs)
  show ?case
    by (simp only: is_in_sphere_np_loop.simps sphere_step_tab Cons.IH) auto
qed

lemma is_in_sphere_np_nth:
  assumes "i < length xs" "j < length ys" "k < length zs"
  shows "is_in_sphere_np g xs ys zs ! i ! j ! k =
     (\<exists>c\<in>set (sphere_centers g).
        quad_sum_at c (xs ! i) (ys ! j) (zs ! k)
          \<le> f64_round (f64_round (sphere_diameter g / 2) * f64_round (sphere_diameter g / 2)))"
proof -
  have "is_in_sphere_np g xs ys zs =
      map (\<lambda>u. map (\<lambda>v. map (\<lambda>w. False \<or>
        (\<exists>c\<in>set (sphere_centers g).
           quad_sum_at c u v w
             \<le> f64_round (f64_round (sphere_diameter g / 2) * f64_round (sphere_diameter g / 2))))
        zs) ys) xs"
    unfolding is_in_sphere_np_def meshgrid_ij_def prod.case
    by (simp only: map_3d_tab is_in_sphere_np_loop_tab)
  then show ?thesis using assms by simp
qed

subsection \<open>Values at the points studied\<close>

text \<open>
  The decimal literals \<open>0.29\<close>, \<open>1.9\<close> and \<open>3.22\<close> denote the float64 numbers nearest
  to them. The sphere radius \<open>7.5 / 2\<close> and its square are float64 numbers.
\<close>

lemmas f64_eval = f64_round_eq [where k = 49] f64_round_eq [where k = 51]
  f64_round_eq [where k = 52] f64_round_eq [where k = 54] f64_round_eq [where k = 56]
  round_even_def

lemma f64_0_29: "f64_round (29 / 100) = 5224175567749775 / 18014398509481984"
  by (simp add: f64_round_eq [where k = 54] round_even_def)

lemma f64_1_9: "f64_round (19 / 10) = 4278419646001971 / 2251799813685248"
  by (simp add: f64_round_eq [where k = 52] round_even_def)

lemma f64_3_22: "f64_round (161 / 50) = 7250795400066499 / 2251799813685248"
  by (simp add: f64_round_eq [where k = 51] round_even_def)

lemma f64_radius: "f64_round (sphere_diameter config / 2) = 15 / 4"
  by (simp add: config_def f64_round_eq [where k = 51] round_even_def)

lemma f64_radius_squared:
  "f64_round (f64_round (sphere_diameter config / 2) * f64_round (sphere_diameter config / 2))
     = 225 / 16"
  unfolding f64_radius by (simp add: f64_round_eq [where k = 49] round_even_def)

lemma quad_sum_at_origin:
  "quad_sum_at [0, 0, 0] (5224175567749775 / 18014398509481984)
     (4278419646001971 / 2251799813685248) (7250795400066499 / 2251799813685248) = 225 / 16"
  unfolding quad_sum_at_def by (simp add: f64_eval)

lemma dot_fused_origin:
  "dot_fused
     (f64_sub [5224175567749775 / 18014398509481984, 4278419646001971 / 2251799813685248,
        7250795400066499 / 2251799813685248] [0, 0, 0])
     (f64_sub [5224175567749775 / 18014398509481984, 4278419646001971 / 2251799813685248,
        7250795400066499 / 2251799813685248] [0, 0, 0])
   = 7916483719987201 / 562949953421312"
  unfolding f64_sub_def dot_fused_def by (simp add: f64_eval)


lemma f64_sqrt_above_radius:
  "\<not> f64_round (sqrt (7916483719987201 / 562949953421312)) \<le> 15 / 4"
proof -
  let ?s = "sqrt (7916483719987201 / 562949953421312)"
  have "(15 / 4 + 1 / 2 ^ 52)\<^sup>2 < (7916483719987201 / 562949953421312 :: real)"
    by (simp add: power2_eq_square)
  then have lo: "15 / 4 + 1 / 2 ^ 52 < ?s" by (rule real_less_rsqrt)
  have "(7916483719987201 / 562949953421312 :: real) < 4\<^sup>2" by simp
  then have hi: "?s < 4" by (intro real_less_lsqrt) simp_all
  have pos: "\<bar>?s\<bar> = ?s" using lo by simp
  have "f64_round ?s = of_int (round_even (?s * 2 ^ 51)) / 2 ^ 51"
    using lo hi by (intro f64_round_eq) (simp_all add: pos)
  moreover have "of_int (8444249301319681 :: int) - 1 / 2 < ?s * 2 ^ 51"
    using lo by simp
  then have "8444249301319681 \<le> round_even (?s * 2 ^ 51)" by (rule round_even_ge)
  then have "(8444249301319681 :: real) \<le> of_int (round_even (?s * 2 ^ 51))"
    by linarith
  ultimately have "8444249301319681 / 2 ^ 51 \<le> f64_round ?s"
    by (simp add: field_simps)
  then show ?thesis by simp
qed









section \<open>The claims\<close>

text \<open>
  C1. The claim: at every index \<open>(i, j, k)\<close> of the grid, the array that
  \<open>is_in_sphere_np\<close> returns holds the value that \<open>is_in_sphere\<close> returns for the
  point \<open>(xs[i], ys[j], zs[k])\<close>. The two functions round differently. On the grid of
  the single point \<open>(0.29, 1.9, 3.22)\<close>, \<open>is_in_sphere_np\<close> rounds the two partial sums
  of the squares and reaches exactly 14.0625, the square of the radius, so the point is
  marked; \<open>is_in_sphere\<close>, with a dot product of fused multiply-adds, reaches the next
  float64 above 14.0625, a distance above the radius 3.75, and returns \<open>False\<close>. The
  point is outside every sphere: its exact distance to each centre exceeds the radius.
\<close>

theorem is_in_sphere_np_differs:
  "is_in_sphere_np config [f64_round (29 / 100)] [f64_round (19 / 10)] [f64_round (161 / 50)]
       ! 0 ! 0 ! 0 = True
   \<and> is_in_sphere dot_fused config
         [f64_round (29 / 100), f64_round (19 / 10), f64_round (161 / 50)] = Inr False
   \<and> \<not> (\<exists>c\<in>set (sphere_centers config).
           euclidean_distance [f64_round (29 / 100), f64_round (19 / 10), f64_round (161 / 50)] c
             \<le> sphere_diameter config / 2)"
proof -
  let ?x = "5224175567749775 / 18014398509481984 :: real"
  let ?y = "4278419646001971 / 2251799813685248 :: real"
  let ?z = "7250795400066499 / 2251799813685248 :: real"
  have c3: "[0, 0, 0] \<in> set (sphere_centers config)"
    by (simp add: config_def)
  have "is_in_sphere_np config [?x] [?y] [?z] ! 0 ! 0 ! 0 =
      (\<exists>c\<in>set (sphere_centers config). quad_sum_at c ?x ?y ?z \<le> 225 / 16)"
    using is_in_sphere_np_nth [of 0 "[?x]" 0 "[?y]" 0 "[?z]" config]
    by (simp add: f64_radius_squared)
  moreover have "quad_sum_at [0, 0, 0] ?x ?y ?z \<le> 225 / 16"
    by (simp only: quad_sum_at_origin)
  ultimately have np: "is_in_sphere_np config [?x] [?y] [?z] ! 0 ! 0 ! 0 = True"
    using c3 by blast
  have n1: "\<not> np_linalg_norm_f64 dot_fused (f64_sub [?x, ?y, ?z] [- 10, - 25, - 30]) \<le> 15 / 4"
    by (rule norm_fused_far) simp
  have n2: "\<not> np_linalg_norm_f64 dot_fused (f64_sub [?x, ?y, ?z] [10, - 15, - 15]) \<le> 15 / 4"
    by (rule norm_fused_far) simp
  have n3: "\<not> np_linalg_norm_f64 dot_fused (f64_sub [?x, ?y, ?z] [0, 0, 0]) \<le> 15 / 4"
    unfolding np_linalg_norm_f64_def dot_fused_origin by (rule f64_sqrt_above_radius)
  have n4: "\<not> np_linalg_norm_f64 dot_fused (f64_sub [?x, ?y, ?z] [- 20, 20, 10]) \<le> 15 / 4"
    by (rule norm_fused_far) simp
  have n5: "\<not> np_linalg_norm_f64 dot_fused (f64_sub [?x, ?y, ?z] [20, 30, 20]) \<le> 15 / 4"
    by (rule norm_fused_far) simp
  have "\<not> (\<exists>c\<in>set (sphere_centers config).
      np_linalg_norm_f64 dot_fused (f64_sub [?x, ?y, ?z] c) \<le> 15 / 4)"
    using n1 n2 n3 n4 n5 by (simp add: config_def)
  then have sc: "is_in_sphere dot_fused config [?x, ?y, ?z] = Inr False"
    by (simp add: is_in_sphere_def is_in_sphere_loop_iff f64_radius)
  have ex: "\<not> (\<exists>c\<in>set (sphere_centers config).
      euclidean_distance [?x, ?y, ?z] c \<le> sphere_diameter config / 2)"
    by (simp add: config_def euclidean_distance_def sqrt_times_le_iff_square power2_eq_square)
  show ?thesis
    unfolding f64_0_29 f64_1_9 f64_3_22 using np sc ex by simp
qed

text \<open>
  C2. The claim: in the corner region (all three absolute coordinates within the half
  width and above the inside bevel) \<open>is_in_cube\<close> with rounded edges is true exactly
  when the distance from the bevel corner to the point is at most the bevel radius. The
  code does otherwise, see \<open>is_in_cube_corner\<close>: at the point \<open>(71, 70, 72)\<close> of the
  corner region, whose distance to \<open>(67, 67, 67)\<close> is the square root of 50 and so
  below the radius 8, the script's function returns \<open>False\<close>.
\<close>

theorem is_in_cube_corner_71_70_72:
  "is_in_cube config [71, 70, 72] True = Inr (Some False)
   \<and> py_any (np_gt (np_abs [71, 70, 72]) (cube_half_width config)) = False
   \<and> py_sum (np_gt (np_abs [71, 70, 72]) (cube_inside_bevel config)) = 3
   \<and> euclidean_distance (np_abs [71, 70, 72])
        [cube_inside_bevel config, cube_inside_bevel config, cube_inside_bevel config]
      \<le> bevel_radius config"
proof -
  have "is_in_cube config [71, 70, 72] True = Inr (Some False)"
    by (simp add: cube_defs config_def sqrt_le_iff_square)
  moreover have "euclidean_distance (np_abs [71, 70, 72])
        [cube_inside_bevel config, cube_inside_bevel config, cube_inside_bevel config]
      \<le> bevel_radius config"
    by (simp add: euclidean_distance_def np_abs_def config_def sqrt_le_iff_square)
  ultimately show ?thesis
    by (simp add: np_gt_def np_abs_def config_def)
qed

text \<open>
  C3. The claim: in an edge region (all absolute coordinates within the half width,
  exactly two of them above the inside bevel) \<open>is_in_cube\<close> with rounded edges is true
  exactly when the distance from \<open>(cube_inside_bevel, cube_inside_bevel)\<close> to those two
  coordinates is at most the bevel radius. The code does otherwise, see
  \<open>is_in_cube_edge_xy\<close>: at the point \<open>(72, 72, 0)\<close>, whose two large coordinates are at
  distance square root of 50 from \<open>(67, 67)\<close>, below the radius 8, the script's function
  returns \<open>False\<close>.
\<close>

theorem is_in_cube_edge_72_72_0:
  "is_in_cube config [72, 72, 0] True = Inr (Some False)
   \<and> py_any (np_gt (np_abs [72, 72, 0]) (cube_half_width config)) = False
   \<and> py_sum (np_gt (np_abs [72, 72, 0]) (cube_inside_bevel config)) = 2
   \<and> euclidean_distance
        (np_mask (np_gt (np_abs [72, 72, 0]) (cube_inside_bevel config)) (np_abs [72, 72, 0]))
        [cube_inside_bevel config, cube_inside_bevel config]
      \<le> bevel_radius config"
proof -
  have "is_in_cube config [72, 72, 0] True = Inr (Some False)"
    by (simp add: cube_defs config_def sqrt_le_iff_square)
  moreover have "euclidean_distance
        (np_mask (np_gt (np_abs [72, 72, 0]) (cube_inside_bevel config)) (np_abs [72, 72, 0]))
        [cube_inside_bevel config, cube_inside_bevel config]
      \<le> bevel_radius config"
    by (simp add: euclidean_distance_def np_mask_def np_gt_def np_abs_def config_def
        sqrt_le_iff_square)
  ultimately show ?thesis
    by (simp add: np_gt_def np_abs_def config_def)
qed

text \<open>
  C4. The claim: with half width 75 and inside bevel 67, \<open>is_in_cube\<close> with rounded
  edges is false at \<open>(72, 72, 72)\<close> and true at \<open>(70, 70, 70)\<close>. The script's function
  returns \<open>False\<close> at both points: at \<open>(70, 70, 70)\<close> the array \<open>vec\<close> has nine entries
  equal to 3, and its norm 9 exceeds the bevel radius 8.
\<close>

theorem is_in_cube_72_and_70:
  "cube_half_width config = 75 \<and> cube_inside_bevel config = 67 \<and> bevel_radius config = 8
   \<and> is_in_cube config [72, 72, 72] True = Inr (Some False)
   \<and> is_in_cube config [70, 70, 70] True = Inr (Some False)
   \<and> np_linalg_norm_2d
        (np_sub_broadcast (np_abs [70, 70, 70]) (np_scale (cube_inside_bevel config) np_ones_3_1))
      = 9"
proof -
  have "is_in_cube config [72, 72, 72] True = Inr (Some False)"
    by (simp add: cube_defs config_def sqrt_le_iff_square)
  moreover have "is_in_cube config [70, 70, 70] True = Inr (Some False)"
    by (simp add: cube_defs config_def sqrt_le_iff_square)
  moreover have "sqrt 81 = 9"
    by (rule real_sqrt_unique) simp_all
  then have "np_linalg_norm_2d
        (np_sub_broadcast (np_abs [70, 70, 70]) (np_scale (cube_inside_bevel config) np_ones_3_1))
      = 9"
    by (simp add: np_linalg_norm_2d_def np_linalg_norm_def np_sub_broadcast_def np_abs_def
        np_scale_def np_ones_3_1_def config_def)
  ultimately show ?thesis
    by (simp add: config_def)
qed

text \<open>
  C5. Without rounded edges, \<open>is_in_cube\<close> at a point of three coordinates returns
  whether the largest absolute coordinate is at most the half width; a point on the
  boundary is inside.
\<close>

theorem is_in_cube_sharp_max:
  "is_in_cube g [x, y, z] False = Inr (Some (max \<bar>x\<bar> (max \<bar>y\<bar> \<bar>z\<bar>) \<le> cube_half_width g))"
  by (simp add: is_in_cube_sharp)

theorem is_in_cube_sharp_max_witness:
  "is_in_cube config [75, - 75, 3] False = Inr (Some True)
   \<and> is_in_cube config [0, 76, 3] False = Inr (Some False)"
  using is_in_cube_sharp_max [of config 75 "- 75" 3] is_in_cube_sharp_max [of config 0 76 3]
  by (simp add: config_def)

text \<open>
  C6. With a bevel radius that is not negative, a point of three coordinates that
  \<open>is_in_cube\<close> accepts with rounded edges is also accepted without them.
\<close>

theorem is_in_cube_rounded_in_sharp:
  "0 \<le> bevel_radius g \<Longrightarrow> is_in_cube g [x, y, z] True = Inr (Some True) \<Longrightarrow>
   is_in_cube g [x, y, z] False = Inr (Some True)"
proof -
  assume "is_in_cube g [x, y, z] True = Inr (Some True)"
  then have "\<not> py_any (np_gt (np_abs [x, y, z]) (cube_half_width g))"
    by (auto simp add: is_in_cube_def Let_def)
  then show ?thesis
    by (simp add: is_in_cube_def Let_def)
qed

theorem is_in_cube_rounded_in_sharp_witness:
  "0 \<le> bevel_radius config \<and> is_in_cube config [70, 70, 0] True = Inr (Some True)
   \<and> is_in_cube config [70, 70, 0] False = Inr (Some True)"
proof -
  have r: "0 \<le> bevel_radius config"
    by (simp add: config_def)
  have t: "is_in_cube config [70, 70, 0] True = Inr (Some True)"
    by (simp add: cube_defs config_def sqrt_le_iff_square)
  from r t is_in_cube_rounded_in_sharp [OF r t] show ?thesis by simp
qed




text \<open>
  C8. Negating any of the three coordinates of a point changes nothing in what
  \<open>is_in_cube\<close> returns, with or without rounded edges: the result depends on the
  absolute coordinates only.
\<close>

theorem is_in_cube_sign_flip:
  "is_in_cube g [if fx then - x else x, if fy then - y else y, if fz then - z else z] r =
   is_in_cube g [x, y, z] r"
proof -
  have "np_abs [if fx then - x else x, if fy then - y else y, if fz then - z else z] =
      np_abs [x, y, z]"
    by (simp add: np_abs_def)
  then show ?thesis
    by (metis is_in_cube_abs)
qed

theorem is_in_cube_sign_flip_witness:
  "is_in_cube config [- 72, 72, - 1] True = is_in_cube config [72, 72, 1] True
   \<and> is_in_cube config [- 72, 72, - 1] False = is_in_cube config [72, 72, 1] False"
  using is_in_cube_sign_flip [of config True 72 False 72 True 1 True]
    is_in_cube_sign_flip [of config True 72 False 72 True 1 False]
  by simp

text \<open>
  C9. The claim: a geometry whose inside bevel exceeds the half width is rejected when
  it is constructed. The script has no such check. With half width 67 and inside bevel 75
  the globals are assigned, the bevel radius is \<open>- 8\<close>, and \<open>is_in_cube\<close> classifies
  points with them.
\<close>

theorem geometry_parameters_67_75:
  "geometry_parameters 67 75 (15 / 2) [[0, 0, 0]] =
     Inr \<lparr>cube_half_width = 67, cube_inside_bevel = 75, bevel_radius = - 8,
          sphere_diameter = 15 / 2, sphere_centers = [[0, 0, 0]]\<rparr>
   \<and> is_in_cube \<lparr>cube_half_width = 67, cube_inside_bevel = 75, bevel_radius = - 8,
          sphere_diameter = 15 / 2, sphere_centers = [[0, 0, 0]]\<rparr> [0, 0, 0] True
      = Inr (Some True)"
  by (simp add: geometry_parameters_def cube_defs)

text \<open>
  C9, as the script behaves: whenever the inside bevel exceeds the half width, the
  assignment of the globals raises nothing, the bevel radius is their negative
  difference, and \<open>is_in_cube\<close> still returns a boolean at every point of three
  coordinates.
\<close>

theorem geometry_parameters_unchecked:
  "w < b \<Longrightarrow>
   \<exists>g. geometry_parameters w b d cs = Inr g \<and> bevel_radius g = w - b \<and> bevel_radius g < 0
     \<and> (\<exists>v. is_in_cube g [x, y, z] r = Inr (Some v))"
  by (simp add: geometry_parameters_def is_in_cube_returns)

theorem geometry_parameters_unchecked_witness:
  "(67 :: real) < 75
   \<and> (\<exists>g. geometry_parameters 67 75 (15 / 2) [[0, 0, 0]] = Inr g \<and> bevel_radius g = 67 - 75
        \<and> bevel_radius g < 0 \<and> (\<exists>v. is_in_cube g [70, 70, 70] True = Inr (Some v)))"
proof -
  have h: "(67 :: real) < 75" by simp
  from h geometry_parameters_unchecked [OF h, of "15 / 2" "[[0, 0, 0]]" 70 70 70 True]
  show ?thesis by simp
qed

text \<open>
  C10. At a point of three real coordinates \<open>is_in_cube\<close> always returns a boolean,
  with or without rounded edges; control never reaches the end of the body. The tests
  that follow the bounding-box test cover every case and exclude one another: the number
  of absolute coordinates above the inside bevel is 0, 1, 2 or 3, and it is 0 exactly
  when all of them are at most the inside bevel.
\<close>

theorem is_in_cube_exhaustive:
  "(\<exists>v. is_in_cube g [x, y, z] r = Inr (Some v))
   \<and> py_sum (np_gt (np_abs [x, y, z]) (cube_inside_bevel g)) \<le> 3
   \<and> py_all (np_le (np_abs [x, y, z]) (cube_inside_bevel g)) =
       (py_sum (np_gt (np_abs [x, y, z]) (cube_inside_bevel g)) = 0)"
  using is_in_cube_returns [of g x y z r] py_sum_le_3 [of x y z "cube_inside_bevel g"]
    py_all_iff_sum_0 [of x y z "cube_inside_bevel g"]
  by simp

theorem is_in_cube_exhaustive_witness:
  "(\<exists>v. is_in_cube config [74, - 74, 74] True = Inr (Some v))
   \<and> py_sum (np_gt (np_abs [74, - 74, 74]) (cube_inside_bevel config)) \<le> 3"
  using is_in_cube_exhaustive [of config 74 "- 74" 74 True]
  by simp

end
